theory Spec2Isabelle
  imports Complex_Main
begin

section \<open>The numbers and number formatting of the runtime\<close>

text \<open>
  The progress utility of the repository exists in two variants: the simple one
  (\<^verbatim>\<open>src/unnamed/part_001\<close>) and the throttled one (the last document of
  \<^verbatim>\<open>src/src/utils/logger.js\<close>, lines 117-206). Both compute with JavaScript numbers
  and format them with \<^verbatim>\<open>Number.prototype.toFixed\<close>.

  A JavaScript number is modelled as a finite value, one of the two infinities or NaN.
  Finite arithmetic is exact (a rational): the rounding of IEEE-754 doubles, overflow,
  underflow and the sign of zero are not modelled, every zero is the positive zero.
  What is modelled is what the code relies on: division by zero does not raise, it
  yields an infinity or NaN, and every comparison with NaN is false.
\<close>

datatype jsnum = NaN | PInf | NInf | Fin rat

datatype jserror = RangeError

text \<open>\<^verbatim>\<open>a - b\<close>\<close>

fun js_sub :: "jsnum \<Rightarrow> jsnum \<Rightarrow> jsnum" where
  "js_sub NaN _ = NaN"
| "js_sub _ NaN = NaN"
| "js_sub (Fin a) (Fin b) = Fin (a - b)"
| "js_sub (Fin a) PInf = NInf"
| "js_sub (Fin a) NInf = PInf"
| "js_sub PInf PInf = NaN"
| "js_sub PInf _ = PInf"
| "js_sub NInf NInf = NaN"
| "js_sub NInf _ = NInf"

text \<open>\<^verbatim>\<open>a + b\<close>\<close>

fun js_add :: "jsnum \<Rightarrow> jsnum \<Rightarrow> jsnum" where
  "js_add NaN _ = NaN"
| "js_add _ NaN = NaN"
| "js_add (Fin a) (Fin b) = Fin (a + b)"
| "js_add (Fin a) PInf = PInf"
| "js_add (Fin a) NInf = NInf"
| "js_add PInf NInf = NaN"
| "js_add PInf _ = PInf"
| "js_add NInf PInf = NaN"
| "js_add NInf _ = NInf"

text \<open>\<^verbatim>\<open>a / b\<close>: a finite value over zero is an infinity of the sign of the numerator,
  zero over zero is NaN.\<close>

fun js_div :: "jsnum \<Rightarrow> jsnum \<Rightarrow> jsnum" where
  "js_div NaN _ = NaN"
| "js_div _ NaN = NaN"
| "js_div (Fin a) (Fin b) =
     (if b = 0 then (if a = 0 then NaN else if 0 < a then PInf else NInf)
      else Fin (a / b))"
| "js_div (Fin a) PInf = Fin 0"
| "js_div (Fin a) NInf = Fin 0"
| "js_div PInf (Fin b) = (if b < 0 then NInf else PInf)"
| "js_div NInf (Fin b) = (if b < 0 then PInf else NInf)"
| "js_div PInf _ = NaN"
| "js_div NInf _ = NaN"

text \<open>\<^verbatim>\<open>a < b\<close>, and from it \<^verbatim>\<open>a > b\<close>, \<^verbatim>\<open>a <= b\<close> and \<^verbatim>\<open>a >= b\<close>.\<close>

fun js_lt :: "jsnum \<Rightarrow> jsnum \<Rightarrow> bool" where
  "js_lt NaN _ = False"
| "js_lt _ NaN = False"
| "js_lt (Fin a) (Fin b) = (a < b)"
| "js_lt (Fin a) PInf = True"
| "js_lt (Fin a) NInf = False"
| "js_lt PInf _ = False"
| "js_lt NInf NInf = False"
| "js_lt NInf _ = True"

definition js_gt :: "jsnum \<Rightarrow> jsnum \<Rightarrow> bool" where
  "js_gt a b = js_lt b a"

definition js_le :: "jsnum \<Rightarrow> jsnum \<Rightarrow> bool" where
  "js_le a b = (a \<noteq> NaN \<and> b \<noteq> NaN \<and> \<not> js_lt b a)"

definition js_ge :: "jsnum \<Rightarrow> jsnum \<Rightarrow> bool" where
  "js_ge a b = js_le b a"

text \<open>\<^verbatim>\<open>Math.min(a, b)\<close>: NaN when an argument is NaN.\<close>

definition Math_min :: "jsnum \<Rightarrow> jsnum \<Rightarrow> jsnum" where
  "Math_min a b = (if a = NaN \<or> b = NaN then NaN else if js_lt b a then b else a)"

subsection \<open>Decimal digits\<close>

text \<open>The decimal digits of an integer that is not negative.\<close>

definition digitChar :: "int \<Rightarrow> char" where
  "digitChar d = ''0123456789'' ! nat (d mod 10)"

function decimal :: "int \<Rightarrow> string" where
  "decimal n = (if n < 10 then [digitChar n] else decimal (n div 10) @ [digitChar (n mod 10)])"
  by pat_completeness auto
termination
  by (relation "measure nat") auto

declare decimal.simps [simp del]

text \<open>
  \<^verbatim>\<open>Number::toString\<close> of a value at or above \<open>10^21\<close>: exponent notation. A double
  of that size is an integer; the runtime prints the shortest digits that identify the
  double, the model the digits of the exact integer part without its trailing zeros.
\<close>

definition exponential :: "int \<Rightarrow> string" where
  "exponential n =
     (let ds = decimal n;
          sd = rev (dropWhile (\<lambda>c. c = CHR ''0'') (rev ds));
          e = length ds - 1
      in (if length sd = 1 then sd else take 1 sd @ ''.'' @ drop 1 sd) @ ''e+'' @ decimal (int e))"

subsection \<open>\<^verbatim>\<open>Number.prototype.toFixed\<close>\<close>

text \<open>
  The integer \<open>n\<close> for which \<open>n / 10^f - x\<close> is as close to zero as possible, the larger
  one of two: for \<open>x \<ge> 0\<close>.
\<close>

definition nearest :: "nat \<Rightarrow> rat \<Rightarrow> int" where
  "nearest f x = \<lfloor>x * 10 ^ f + 1 / 2\<rfloor>"

text \<open>The digits of \<open>n\<close> with the decimal point before the last \<open>f\<close> of them.\<close>

definition pointed :: "nat \<Rightarrow> int \<Rightarrow> string" where
  "pointed f n =
     (let m = decimal n
      in if f = 0 then m
         else (let m = (if length m \<le> f then replicate (f + 1 - length m) CHR ''0'' @ m else m);
                   k = length m
               in take (k - f) m @ ''.'' @ drop (k - f) m))"

text \<open>
  \<^verbatim>\<open>x.toFixed(f)\<close> as ECMA-262 defines it. The text it returns: the name of a value
  that is not finite, a minus sign for a negative value, exponent notation from \<open>10^21\<close>
  on, and otherwise the nearest decimal with \<open>f\<close> digits after the point. Before that,
  a RangeError for \<open>f\<close> above 100 (\<open>f\<close> below 0 is no natural number).
\<close>

definition fixedText :: "nat \<Rightarrow> jsnum \<Rightarrow> string" where
  "fixedText f x =
     (case x of
        NaN \<Rightarrow> ''NaN''
      | PInf \<Rightarrow> ''Infinity''
      | NInf \<Rightarrow> ''-Infinity''
      | Fin r \<Rightarrow>
          (let s = (if r < 0 then ''-'' else '''');
               a = \<bar>r\<bar>
           in s @ (if 10 ^ 21 \<le> a then exponential \<lfloor>a\<rfloor> else pointed f (nearest f a))))"

definition toFixed :: "nat \<Rightarrow> jsnum \<Rightarrow> jserror + string" where
  "toFixed f x = (if 100 < f then Inl RangeError else Inr (fixedText f x))"

section \<open>The progress bar\<close>

text \<open>
  A bar of the \<^verbatim>\<open>cli-progress\<close> library, as far as the utility reads and writes it: its
  total, its value, the two payload keys the utility sets (\<^verbatim>\<open>speed\<close>, \<^verbatim>\<open>eta\<close>) and
  the property \<^verbatim>\<open>bar.start\<close> the utility adds. The throttled variant adds
  \<^verbatim>\<open>bar.lastUpdate\<close> and \<^verbatim>\<open>bar.lastValue\<close>. Times are the milliseconds of
  \<^verbatim>\<open>Date.now()\<close>, which the functions below take as arguments.

  The library is not part of the repository. Of it the model takes that
  \<^verbatim>\<open>multiBar.create(total, startValue, payload)\<close> returns a bar holding the three (the
  totals the callers pass are positive constants and the length of a list), that
  \<^verbatim>\<open>bar.update(value, payload)\<close> stores the value and the keys of the payload, and that
  \<^verbatim>\<open>bar.update(value)\<close> stores the value and leaves the payload as it is. How the
  library draws the bar is not modelled, nor is what \<^verbatim>\<open>console.log\<close> prints.
\<close>

record bar =
  total :: jsnum
  bvalue :: jsnum
  speed :: string
  eta :: string
  start :: int

record tbar = bar +
  lastUpdate :: int
  lastValue :: jsnum

subsection \<open>The simple variant (\<^verbatim>\<open>src/unnamed/part_001\<close>)\<close>

text \<open>
  \<^verbatim>\<open>createProgressBar(task, totalSize)\<close>:
  \<^verbatim>\<open>const bar = multiBar.create(totalSize, 0, { speed: "N/A", eta: "N/A" });
  bar.start = Date.now();\<close>
  The task name is only printed; \<open>now\<close> is what \<^verbatim>\<open>Date.now()\<close> returns.
\<close>

definition createProgressBar_simple :: "jsnum \<Rightarrow> int \<Rightarrow> bar" where
  "createProgressBar_simple totalSize now =
     \<lparr>total = totalSize, bvalue = Fin 0, speed = ''N/A'', eta = ''N/A'', start = now\<rparr>"

text \<open>\<^verbatim>\<open>(Date.now() - bar.start) / 1000\<close>\<close>

definition elapsedTime :: "int \<Rightarrow> int \<Rightarrow> jsnum" where
  "elapsedTime now started = js_div (Fin (of_int (now - started))) (Fin 1000)"

text \<open>\<^verbatim>\<open>(bar.total - value) / (value / elapsedTime)\<close>\<close>

definition etaValue :: "jsnum \<Rightarrow> jsnum \<Rightarrow> jsnum \<Rightarrow> jsnum" where
  "etaValue tot v el = js_div (js_sub tot v) (js_div v el)"

text \<open>\<^verbatim>\<open>elapsedTime > 0 ? (...).toFixed(0) : 'N/A'\<close>\<close>

definition etaText :: "jsnum \<Rightarrow> jsnum \<Rightarrow> jsnum \<Rightarrow> jserror + string" where
  "etaText tot v el = (if js_gt el (Fin 0) then toFixed 0 (etaValue tot v el) else Inr ''N/A'')"

text \<open>
  \<^verbatim>\<open>updateProgress(bar, value)\<close>, with \<open>now\<close> for \<^verbatim>\<open>Date.now()\<close>:
  \<^verbatim>\<open>const elapsedTime = (Date.now() - bar.start) / 1000;
  const speed = elapsedTime > 0 ? (value / elapsedTime).toFixed(2) + ' MB/s' : 'N/A';
  const eta = elapsedTime > 0 ? ((bar.total - value) / (value / elapsedTime)).toFixed(0) : 'N/A';
  bar.update(value, { speed: speed, eta: eta });\<close>
  A call returns the bar as it is afterwards, or the error it throws.
\<close>

definition updateProgress_simple :: "bar \<Rightarrow> jsnum \<Rightarrow> int \<Rightarrow> jserror + bar" where
  "updateProgress_simple b v now =
     (let el = elapsedTime now (start b)
      in case (if js_gt el (Fin 0)
               then map_sum id (\<lambda>s. s @ '' MB/s'') (toFixed 2 (js_div v el))
               else Inr ''N/A'') of
           Inl e \<Rightarrow> Inl e
         | Inr sp \<Rightarrow>
             (case etaText (total b) v el of
                Inl e \<Rightarrow> Inl e
              | Inr et \<Rightarrow> Inr (b\<lparr>bvalue := v, speed := sp, eta := et\<rparr>)))"

text \<open>\<^verbatim>\<open>completeProgress(bar)\<close>: \<^verbatim>\<open>bar.update(bar.total);\<close>\<close>

definition completeProgress_simple :: "bar \<Rightarrow> bar" where
  "completeProgress_simple b = b\<lparr>bvalue := total b\<rparr>"

subsection \<open>The throttled variant (\<^verbatim>\<open>src/src/utils/logger.js\<close>, lines 143-206)\<close>

text \<open>
  \<^verbatim>\<open>createProgressBar(task, totalSize)\<close> creates the bar as the simple variant does and
  then reads the clock twice:
  \<^verbatim>\<open>bar.start = Date.now(); bar.lastUpdate = Date.now(); bar.lastValue = 0;\<close>
  \<open>now\<close> is the first reading, \<open>now'\<close> the second.
\<close>

definition createProgressBar_throttled :: "jsnum \<Rightarrow> int \<Rightarrow> int \<Rightarrow> tbar" where
  "createProgressBar_throttled totalSize now now' =
     \<lparr>total = totalSize, bvalue = Fin 0, speed = ''N/A'', eta = ''N/A'', start = now,
      lastUpdate = now', lastValue = Fin 0\<rparr>"

text \<open>
  \<^verbatim>\<open>updateProgress(bar, value)\<close>:
  \<^verbatim>\<open>const now = Date.now();
  const timeDiff = (now - bar.lastUpdate) / 1000;
  const valueDiff = value - bar.lastValue;
  let speed = "N/A";
  if (timeDiff >= 0.1) {
    speed = (valueDiff / timeDiff).toFixed(2);
    bar.lastUpdate = now;
    bar.lastValue = value;
  }
  const elapsedTime = (now - bar.start) / 1000;
  const eta = elapsedTime > 0 ? ((bar.total - value) / (value / elapsedTime)).toFixed(0) : 'N/A';
  bar.update(value, { speed: speed, eta: eta });\<close>
  The first \<open>case\<close> is the \<^verbatim>\<open>if\<close>: it yields the rate text and the bar with the sample
  it may have stored.
\<close>

definition updateProgress_throttled :: "tbar \<Rightarrow> jsnum \<Rightarrow> int \<Rightarrow> jserror + tbar" where
  "updateProgress_throttled b v now =
     (let timeDiff = js_div (Fin (of_int (now - lastUpdate b))) (Fin 1000);
          valueDiff = js_sub v (lastValue b)
      in case (if js_ge timeDiff (Fin (1 / 10))
               then map_sum id (\<lambda>s. (s, b\<lparr>lastUpdate := now, lastValue := v\<rparr>))
                      (toFixed 2 (js_div valueDiff timeDiff))
               else Inr (''N/A'', b)) of
           Inl e \<Rightarrow> Inl e
         | Inr (sp, b') \<Rightarrow>
             (case etaText (total b') v (elapsedTime now (start b')) of
                Inl e \<Rightarrow> Inl e
              | Inr et \<Rightarrow> Inr (b'\<lparr>bvalue := v, speed := sp, eta := et\<rparr>)))"

text \<open>\<^verbatim>\<open>completeProgress(bar)\<close>: \<^verbatim>\<open>bar.update(bar.total, { speed: "Done", eta: "0" });\<close>\<close>

definition completeProgress_throttled :: "tbar \<Rightarrow> tbar" where
  "completeProgress_throttled b = b\<lparr>bvalue := total b, speed := ''Done'', eta := ''0''\<rparr>"

section \<open>Sequences of calls\<close>

text \<open>
  What a caller does with a tracker after creating it: calls of \<^verbatim>\<open>updateProgress\<close> (with
  the value and the time \<^verbatim>\<open>Date.now()\<close> returns inside the call) and of
  \<^verbatim>\<open>completeProgress\<close>, one after the other on the same bar. A call that throws
  ends the sequence with its error.
\<close>

datatype call = Update jsnum int | Complete

fun run_simple :: "bar \<Rightarrow> call list \<Rightarrow> jserror + bar" where
  "run_simple b [] = Inr b"
| "run_simple b (Update v now # cs) =
     (case updateProgress_simple b v now of Inl e \<Rightarrow> Inl e | Inr b' \<Rightarrow> run_simple b' cs)"
| "run_simple b (Complete # cs) = run_simple (completeProgress_simple b) cs"

fun run_throttled :: "tbar \<Rightarrow> call list \<Rightarrow> jserror + tbar" where
  "run_throttled b [] = Inr b"
| "run_throttled b (Update v now # cs) =
     (case updateProgress_throttled b v now of Inl e \<Rightarrow> Inl e | Inr b' \<Rightarrow> run_throttled b' cs)"
| "run_throttled b (Complete # cs) = run_throttled (completeProgress_throttled b) cs"

text \<open>
  An input of fixed increments at fixed time steps: sample \<open>i\<close> (for \<open>i = 0, ..., n - 1\<close>)
  reports the value \<open>v0 + i * d\<close> at time \<open>t1 + i * s\<close> (milliseconds).
\<close>

definition fixedSteps :: "rat \<Rightarrow> rat \<Rightarrow> int \<Rightarrow> int \<Rightarrow> nat \<Rightarrow> call list" where
  "fixedSteps v0 d t1 s n = map (\<lambda>i. Update (Fin (v0 + of_nat i * d)) (t1 + int i * s)) [0..<n]"

text \<open>
  Such an input at a constant rate since the creation of the tracker at \<open>t0\<close>, where the
  value was 0: the first sample reports one increment one step after \<open>t0\<close>, so that
  sample \<open>k\<close> (for \<open>k = 1, ..., n\<close>) reports \<open>k * d\<close> at \<open>k * s\<close> milliseconds after \<open>t0\<close>,
  as in the specification's example of 10 more every 100 ms against a total of 100.
\<close>

definition constantRate :: "rat \<Rightarrow> int \<Rightarrow> int \<Rightarrow> nat \<Rightarrow> call list" where
  "constantRate d s t0 n = fixedSteps d d (t0 + s) s n"

text \<open>
  The model's quotients are exact; the code's are rounded to doubles. For what depends on
  that, here is the estimate \<^verbatim>\<open>(bar.total - value) / (value / elapsedTime)\<close>, with
  \<^verbatim>\<open>elapsedTime = (now - bar.start) / 1000\<close>, on an integer total, an integer value and
  the milliseconds \<open>ms\<close> since creation, each of the three quotients rounded by \<open>rd\<close>.
  The two differences are left as they are: doubles compute the difference of two integers
  below \<open>2^53\<close> exactly.
\<close>

definition etaRounded :: "(rat \<Rightarrow> rat) \<Rightarrow> int \<Rightarrow> int \<Rightarrow> int \<Rightarrow> rat" where
  "etaRounded rd tot v ms = rd (of_int (tot - v) / rd (of_int v / rd (of_int ms / 1000)))"

text \<open>
  What is taken of the rounding: it keeps the order, and between \<open>2^-64\<close> and \<open>2^64\<close> its
  relative error is at most \<open>2^-53\<close>. Rounding to the nearest double is such a rounding
  (its relative error is at most \<open>2^-53\<close> wherever the result is a normal number), and
  so is no rounding at all.
\<close>

definition roundsLikeDouble :: "(rat \<Rightarrow> rat) \<Rightarrow> bool" where
  "roundsLikeDouble rd \<longleftrightarrow>
     (\<forall>x y. x \<le> y \<longrightarrow> rd x \<le> rd y)
   \<and> (\<forall>x. 1 / 2 ^ 64 \<le> x \<and> x \<le> 2 ^ 64 \<longrightarrow>
          x * (1 - 1 / 2 ^ 53) \<le> rd x \<and> rd x \<le> x * (1 + 1 / 2 ^ 53))"

text \<open>
  The specification's formula for the estimate, to compare the code with:
  \<^verbatim>\<open>(total - value) / averageRate\<close>, where
  \<^verbatim>\<open>averageRate = value / elapsedTimeSinceStart\<close>, the elapsed time in seconds.
\<close>

definition spec_averageRate :: "jsnum \<Rightarrow> jsnum \<Rightarrow> jsnum" where
  "spec_averageRate v elapsedSinceStart = js_div v elapsedSinceStart"

definition spec_eta :: "jsnum \<Rightarrow> jsnum \<Rightarrow> jsnum \<Rightarrow> jsnum" where
  "spec_eta tot v elapsedSinceStart = js_div (js_sub tot v) (spec_averageRate v elapsedSinceStart)"

section \<open>The callers\<close>

text \<open>
  The download drivers (\<^verbatim>\<open>installPython\<close>, \<^verbatim>\<open>installVCRedist\<close> and their ten siblings
  in \<^verbatim>\<open>devSetup.js\<close> and \<^verbatim>\<open>src/unnamed/part_000\<close>) all run the same handler on every
  chunk of the response, with the size the bar was created with:
  \<^verbatim>\<open>downloadedSize += chunk.length / (1024 * 1024);
  updateProgress(progressBar, Math.min(downloadedSize, size));\<close>
  \<open>download_calls\<close> lists the calls of \<^verbatim>\<open>updateProgress\<close> this makes, as the value
  passed and the time of the call, for the chunks given by their lengths and times.
\<close>

fun download_calls :: "jsnum \<Rightarrow> jsnum \<Rightarrow> (nat \<times> int) list \<Rightarrow> (jsnum \<times> int) list" where
  "download_calls expectedSize downloadedSize [] = []"
| "download_calls expectedSize downloadedSize ((len, now) # chunks) =
     (let downloadedSize = js_add downloadedSize (js_div (Fin (of_nat len)) (Fin (1024 * 1024)))
      in (Math_min downloadedSize expectedSize, now) # download_calls expectedSize downloadedSize chunks)"

text \<open>
  The loop of \<^verbatim>\<open>createFolderStructure\<close> (\<^verbatim>\<open>driveSetup.js\<close>, lines 279-292) over the \<open>n\<close>
  folders, on a bar created with total \<open>n\<close>: iteration \<open>i\<close> creates the folder and its
  README and then calls \<^verbatim>\<open>updateProgress(progressBar, i + 1)\<close>. \<open>fsOk i\<close> says whether
  the file system calls of iteration \<open>i\<close> succeed; when they throw, the loop is left for
  the \<^verbatim>\<open>catch\<close> block. \<open>clock i\<close> is the time of the call.
\<close>

function createFolderStructure_calls ::
  "nat \<Rightarrow> nat \<Rightarrow> (nat \<Rightarrow> bool) \<Rightarrow> (nat \<Rightarrow> int) \<Rightarrow> (jsnum \<times> int) list" where
  "createFolderStructure_calls n i fsOk clock =
     (if i < n
      then (if fsOk i
            then (Fin (of_nat (i + 1)), clock i) # createFolderStructure_calls n (i + 1) fsOk clock
            else [])
      else [])"
  by pat_completeness auto
termination
  by (relation "measure (\<lambda>(n, i, fsOk, clock). n - i)") auto

declare createFolderStructure_calls.simps [simp del]

section \<open>Properties of the number model\<close>

lemma toFixed_Inr: "f \<le> 100 \<Longrightarrow> toFixed f x = Inr (fixedText f x)"
  by (simp add: toFixed_def)

lemma etaText_Inr:
  "etaText tot v el = Inr (if js_gt el (Fin 0) then fixedText 0 (etaValue tot v el) else ''N/A'')"
  by (simp add: etaText_def toFixed_Inr)

lemma js_ge_tenth: "js_ge (js_div (Fin (of_int d)) (Fin 1000)) (Fin (1 / 10)) \<longleftrightarrow> 100 \<le> d"
proof -
  have "(1 / 10 \<le> (of_int d :: rat) / 1000) = ((100::rat) \<le> of_int d)"
    by (simp add: field_simps)
  also have "\<dots> = (100 \<le> d)"
    by (metis of_int_le_iff of_int_numeral)
  finally show ?thesis
    by (simp add: js_ge_def js_le_def not_less)
qed

lemma js_gt_elapsed: "js_gt (elapsedTime now st) (Fin 0) \<longleftrightarrow> st < now"
  by (simp add: js_gt_def elapsedTime_def)

section \<open>What a call of \<^verbatim>\<open>updateProgress\<close> returns\<close>

lemma updateProgress_simple_Inr:
  "updateProgress_simple b v now =
     Inr (b\<lparr>bvalue := v,
            speed := (if start b < now
                      then fixedText 2 (js_div v (elapsedTime now (start b))) @ '' MB/s''
                      else ''N/A''),
            eta := (if start b < now
                    then fixedText 0 (etaValue (total b) v (elapsedTime now (start b)))
                    else ''N/A'')\<rparr>)"
  by (simp add: updateProgress_simple_def Let_def etaText_Inr toFixed_Inr js_gt_elapsed)

lemma updateProgress_throttled_Inr:
  "updateProgress_throttled b v now =
     Inr (if 100 \<le> now - lastUpdate b
          then b\<lparr>bvalue := v,
                 speed := fixedText 2 (js_div (js_sub v (lastValue b))
                            (js_div (Fin (of_int (now - lastUpdate b))) (Fin 1000))),
                 eta := (if start b < now
                    then fixedText 0 (etaValue (total b) v (elapsedTime now (start b)))
                    else ''N/A''),
                 lastUpdate := now, lastValue := v\<rparr>
          else b\<lparr>bvalue := v, speed := ''N/A'',
                 eta := (if start b < now
                    then fixedText 0 (etaValue (total b) v (elapsedTime now (start b)))
                    else ''N/A'')\<rparr>)"
  unfolding updateProgress_throttled_def Let_def js_ge_tenth
  by (simp add: etaText_Inr toFixed_Inr js_gt_elapsed del: js_div.simps)

lemma fixedText_2_zero: "fixedText 2 (Fin 0) = ''0.00''"
  by code_simp

section \<open>What a sequence of calls returns\<close>

lemma run_simple_Inr:
  "\<exists>b'. run_simple b cs = Inr b' \<and> total b' = total b \<and> start b' = start b"
proof (induction cs arbitrary: b)
  case Nil
  show ?case by simp
next
  case (Cons c cs)
  show ?case
  proof (cases c)
    case (Update v now)
    obtain u where "updateProgress_simple b v now = Inr u" "total u = total b" "start u = start b"
      by (simp add: updateProgress_simple_Inr)
    then show ?thesis
      using Cons.IH [of u] Update by simp
  next
    case Complete
    then show ?thesis
      using Cons.IH [of "completeProgress_simple b"] by (simp add: completeProgress_simple_def)
  qed
qed

lemma run_throttled_Inr:
  "\<exists>t'. run_throttled t cs = Inr t' \<and> total t' = total t \<and> start t' = start t"
proof (induction cs arbitrary: t)
  case Nil
  show ?case by simp
next
  case (Cons c cs)
  show ?case
  proof (cases c)
    case (Update v now)
    obtain u where "updateProgress_throttled t v now = Inr u" "total u = total t" "start u = start t"
      by (simp add: updateProgress_throttled_Inr)
    then show ?thesis
      using Cons.IH [of u] Update by simp
  next
    case Complete
    then show ?thesis
      using Cons.IH [of "completeProgress_throttled t"] by (simp add: completeProgress_throttled_def)
  qed
qed

section \<open>What the callers pass\<close>

lemma Math_min_le: "js_le (Math_min (Fin a) (Fin b)) (Fin b)"
  by (simp add: Math_min_def js_le_def)

lemma download_calls_le:
  "(v, now) \<in> set (download_calls (Fin sz) (Fin d) chunks) \<Longrightarrow> js_le v (Fin sz)"
proof (induction chunks arbitrary: d)
  case Nil
  then show ?case by simp
next
  case (Cons c chunks)
  obtain len t where c: "c = (len, t)" by (cases c)
  from Cons.prems c
  have "v = Math_min (Fin (d + of_nat len / (1024 * 1024))) (Fin sz)
        \<or> (v, now) \<in> set (download_calls (Fin sz) (Fin (d + of_nat len / (1024 * 1024))) chunks)"
    by (auto simp add: Let_def)
  then show ?case
    using Cons.IH Math_min_le by blast
qed

lemma createFolderStructure_calls_le:
  "(v, now) \<in> set (createFolderStructure_calls n i fsOk clock) \<Longrightarrow>
     \<exists>m. v = Fin (of_nat m) \<and> i < m \<and> m \<le> n"
proof (induction n i fsOk clock rule: createFolderStructure_calls.induct)
  case (1 n i fsOk clock)
  show ?case
  proof (cases "i < n \<and> fsOk i")
    case True
    with "1.prems" have "v = Fin (of_nat (i + 1))
        \<or> (v, now) \<in> set (createFolderStructure_calls n (i + 1) fsOk clock)"
      by (subst (asm) createFolderStructure_calls.simps) auto
    then show ?thesis
    proof
      assume "v = Fin (of_nat (i + 1))"
      with True show ?thesis by (intro exI [of _ "i + 1"]) simp
    next
      assume "(v, now) \<in> set (createFolderStructure_calls n (i + 1) fsOk clock)"
      with "1.IH" True obtain m where "v = Fin (of_nat m)" "i + 1 < m" "m \<le> n" by blast
      then show ?thesis by (intro exI [of _ m]) simp
    qed
  next
    case False
    with "1.prems" show ?thesis
      by (subst (asm) createFolderStructure_calls.simps) auto
  qed
qed

lemma download_example:
  "download_calls (Fin 1) (Fin 0) [(524288, 100), (1048576, 200)] = [(Fin (1 / 2), 100), (Fin 1, 200)]"
  by (simp add: Math_min_def)

lemma folders_example:
  "createFolderStructure_calls 2 0 (\<lambda>i. True) (\<lambda>i. int i) = [(Fin 1, 0), (Fin 2, 1)]"
  by code_simp

lemma eta_example: "fixedText 0 (Fin ((100 - 50) / (50 / (of_int (10000 - 0) / 1000)))) = ''10''"
  by code_simp

section \<open>Completion\<close>

text \<open>
  \<^verbatim>\<open>completeProgress\<close> of the throttled variant sets the current value to the total,
  the rate text to \<open>Done\<close> and the estimate text to \<open>0\<close>, whatever the bar was before,
  and a second call changes nothing in the bar.
\<close>

lemma completeProgress_throttled_done:
  "bvalue (completeProgress_throttled t) = total t \<and> speed (completeProgress_throttled t) = ''Done''
   \<and> eta (completeProgress_throttled t) = ''0''
   \<and> completeProgress_throttled (completeProgress_throttled t) = completeProgress_throttled t"
  by (simp add: completeProgress_throttled_def)

text \<open>
  \<^verbatim>\<open>completeProgress\<close> of the simple variant sets the current value to the total and
  leaves the rest of the bar, rate and estimate texts included, as it was; a second call
  changes nothing in the bar.
\<close>

lemma completeProgress_simple_total:
  "completeProgress_simple b = b\<lparr>bvalue := total b\<rparr>
   \<and> speed (completeProgress_simple b) = speed b \<and> eta (completeProgress_simple b) = eta b
   \<and> completeProgress_simple (completeProgress_simple b) = completeProgress_simple b"
  by (simp add: completeProgress_simple_def)

section \<open>Constant-rate input\<close>

lemma run_simple_append:
  "run_simple b (xs @ ys) = (case run_simple b xs of Inl e \<Rightarrow> Inl e | Inr b' \<Rightarrow> run_simple b' ys)"
proof (induction xs arbitrary: b)
  case Nil
  show ?case by simp
next
  case (Cons c xs)
  show ?case
    by (cases c) (simp_all add: Cons.IH split: sum.splits)
qed

lemma run_throttled_append:
  "run_throttled t (xs @ ys) =
     (case run_throttled t xs of Inl e \<Rightarrow> Inl e | Inr t' \<Rightarrow> run_throttled t' ys)"
proof (induction xs arbitrary: t)
  case Nil
  show ?case by simp
next
  case (Cons c xs)
  show ?case
    by (cases c) (simp_all add: Cons.IH split: sum.splits)
qed

lemma constantRate_Suc:
  "constantRate d s t0 (Suc n) =
     constantRate d s t0 n @ [Update (Fin (of_nat (Suc n) * d)) (t0 + int (Suc n) * s)]"
  by (simp add: constantRate_def fixedSteps_def algebra_simps)

lemma etaValue_constantRate:
  assumes "0 < d" and "0 < s" and "1 \<le> k"
  shows "etaValue (Fin T) (Fin (of_nat k * d)) (elapsedTime (t0 + int k * s) t0) =
           Fin ((T - of_nat k * d) / (of_nat k * d / (of_int (int k * s) / 1000)))"
proof -
  have k: "0 < (of_nat k :: rat)" using assms(3) by simp
  have s: "0 < (of_int s :: rat)" using assms(2) by simp
  have "of_nat k * d \<noteq> 0" using k assms(1) by simp
  moreover have "(of_int (int k * s) :: rat) \<noteq> 0" using k s by simp
  ultimately show ?thesis
    by (simp add: etaValue_def elapsedTime_def)
qed

lemma eta_after_constantRate_simple:
  assumes "0 < d" and "0 < s" and "1 \<le> k" and "total b = Fin T"
  shows "\<exists>b'. run_simple b (constantRate d s (start b) k) = Inr b' \<and>
           eta b' = fixedText 0
             (Fin ((T - of_nat k * d) / (of_nat k * d / (of_int (int k * s) / 1000))))"
proof -
  obtain n where n: "k = Suc n" using assms(3) by (cases k) auto
  obtain u where u: "run_simple b (constantRate d s (start b) n) = Inr u"
      "total u = total b" "start u = start b"
    using run_simple_Inr by blast
  have later: "start b < start b + int k * s"
    using assms(2,3) by simp
  have "run_simple b (constantRate d s (start b) k) =
          updateProgress_simple u (Fin (of_nat k * d)) (start b + int k * s)"
    by (simp add: n constantRate_Suc run_simple_append u del: of_nat_Suc split: sum.splits)
  then show ?thesis
    using later u assms(4) etaValue_constantRate [OF assms(1,2,3), of T "start b"]
    by (simp add: updateProgress_simple_Inr)
qed

lemma eta_after_constantRate_throttled:
  assumes "0 < d" and "0 < s" and "1 \<le> k" and "total t = Fin T"
  shows "\<exists>t'. run_throttled t (constantRate d s (start t) k) = Inr t' \<and>
           eta t' = fixedText 0
             (Fin ((T - of_nat k * d) / (of_nat k * d / (of_int (int k * s) / 1000))))"
proof -
  obtain n where n: "k = Suc n" using assms(3) by (cases k) auto
  obtain u where u: "run_throttled t (constantRate d s (start t) n) = Inr u"
      "total u = total t" "start u = start t"
    using run_throttled_Inr by blast
  have later: "start t < start t + int k * s"
    using assms(2,3) by simp
  have "run_throttled t (constantRate d s (start t) k) =
          updateProgress_throttled u (Fin (of_nat k * d)) (start t + int k * s)"
    by (simp add: n constantRate_Suc run_throttled_append u del: of_nat_Suc split: sum.splits)
  then show ?thesis
    using later u assms(4) etaValue_constantRate [OF assms(1,2,3), of T "start t"]
    by (simp add: updateProgress_throttled_Inr)
qed

lemma constantRate_eta_formula:
  fixes d T :: rat
  assumes "0 < d" and "0 < s" and "1 \<le> k"
  shows "(T - of_nat k * d) / (of_nat k * d / (of_int (int k * s) / 1000)) =
           (T - of_nat k * d) * (of_int s / (1000 * d))"
proof -
  have "(of_nat k :: rat) \<noteq> 0" using assms(3) by simp
  moreover have "d \<noteq> 0" using assms(1) by simp
  moreover have "(of_int s :: rat) \<noteq> 0" using assms(2) by simp
  ultimately show ?thesis by simp
qed

lemma constantRate_eta_mono:
  fixes d T :: rat
  assumes "0 < d" and "0 < s" and "1 \<le> j" and "j \<le> k"
  shows "(T - of_nat k * d) / (of_nat k * d / (of_int (int k * s) / 1000))
       \<le> (T - of_nat j * d) / (of_nat j * d / (of_int (int j * s) / 1000))"
proof -
  have k: "1 \<le> k" using assms(3,4) by simp
  have "(of_nat j :: rat) \<le> of_nat k" using assms(4) by simp
  then have "T - of_nat k * d \<le> T - of_nat j * d"
    using assms(1) by (simp add: mult_right_mono)
  moreover have "0 \<le> (of_int s :: rat) / (1000 * d)" using assms(1,2) by simp
  ultimately have "(T - of_nat k * d) * (of_int s / (1000 * d))
      \<le> (T - of_nat j * d) * (of_int s / (1000 * d))"
    by (rule mult_right_mono)
  then show ?thesis
    by (simp only: constantRate_eta_formula [OF assms(1,2,3)] constantRate_eta_formula [OF assms(1,2) k])
qed

lemma constantRate_eta_nonneg:
  fixes d T :: rat
  assumes "0 < d" and "0 < s" and "1 \<le> k" and "of_nat k * d \<le> T"
  shows "0 \<le> (T - of_nat k * d) / (of_nat k * d / (of_int (int k * s) / 1000))"
proof -
  have "0 \<le> (T - of_nat k * d) * (of_int s / (1000 * d))"
    using assms(1,2,4) by simp
  then show ?thesis
    by (simp only: constantRate_eta_formula [OF assms(1,2,3)])
qed

lemma nearest_mono: "x \<le> y \<Longrightarrow> nearest f x \<le> nearest f y"
  unfolding nearest_def by (intro floor_mono) (simp add: mult_right_mono)

lemma fixedText_0_small: "0 \<le> x \<Longrightarrow> x < 10 ^ 21 \<Longrightarrow> fixedText 0 (Fin x) = decimal (nearest 0 x)"
  by (simp add: fixedText_def pointed_def Let_def)

lemma constant_rate_example:
  "run_simple (createProgressBar_simple (Fin 100) 0) (constantRate 10 100 0 9) =
     Inr \<lparr>total = Fin 100, bvalue = Fin 90, speed = ''100.00 MB/s'', eta = ''0'', start = 0\<rparr>"
  "run_simple (createProgressBar_simple (Fin 100) 0) (constantRate 10 100 0 2) =
     Inr \<lparr>total = Fin 100, bvalue = Fin 20, speed = ''100.00 MB/s'', eta = ''1'', start = 0\<rparr>"
  by code_simp+

text \<open>
  In the model, whose quotients are exact, the estimates of a constant-rate input since
  creation never increase, whatever the increment, the step and the total.
\<close>

lemma eta_nonincreasing_exact:
  fixes d T :: rat
  assumes "0 < d" and "0 < s" and "1 \<le> j" and "j \<le> k" and "of_nat k * d \<le> T"
    and "total b = Fin T" and "total t = Fin T"
  shows "let E = (\<lambda>i. (T - of_nat i * d) / (of_nat i * d / (of_int (int i * s) / 1000)))
         in \<exists>bj bk tj tk.
              run_simple b (constantRate d s (start b) j) = Inr bj
            \<and> run_simple b (constantRate d s (start b) k) = Inr bk
            \<and> run_throttled t (constantRate d s (start t) j) = Inr tj
            \<and> run_throttled t (constantRate d s (start t) k) = Inr tk
            \<and> eta bj = fixedText 0 (Fin (E j)) \<and> eta bk = fixedText 0 (Fin (E k))
            \<and> eta tj = fixedText 0 (Fin (E j)) \<and> eta tk = fixedText 0 (Fin (E k))
            \<and> 0 \<le> E k \<and> E k \<le> E j \<and> nearest 0 (E k) \<le> nearest 0 (E j)
            \<and> (E j < 10 ^ 21 \<longrightarrow>
                 eta bj = decimal (nearest 0 (E j)) \<and> eta bk = decimal (nearest 0 (E k)))"
proof -
  define E where "E = (\<lambda>i. (T - of_nat i * d) / (of_nat i * d / (of_int (int i * s) / 1000)))"
  have k: "1 \<le> k" using assms(3,4) by simp
  have jT: "of_nat j * d \<le> T"
  proof -
    have "(of_nat j :: rat) \<le> of_nat k" using assms(4) by simp
    then have "of_nat j * d \<le> of_nat k * d" using assms(1) by (simp add: mult_right_mono)
    then show ?thesis using assms(5) by simp
  qed
  obtain bj where bj: "run_simple b (constantRate d s (start b) j) = Inr bj"
      "eta bj = fixedText 0 (Fin (E j))"
    using eta_after_constantRate_simple [OF assms(1,2,3,6)] unfolding E_def by blast
  obtain bk where bk: "run_simple b (constantRate d s (start b) k) = Inr bk"
      "eta bk = fixedText 0 (Fin (E k))"
    using eta_after_constantRate_simple [OF assms(1,2) k assms(6)] unfolding E_def by blast
  obtain tj where tj: "run_throttled t (constantRate d s (start t) j) = Inr tj"
      "eta tj = fixedText 0 (Fin (E j))"
    using eta_after_constantRate_throttled [OF assms(1,2,3,7)] unfolding E_def by blast
  obtain tk where tk: "run_throttled t (constantRate d s (start t) k) = Inr tk"
      "eta tk = fixedText 0 (Fin (E k))"
    using eta_after_constantRate_throttled [OF assms(1,2) k assms(7)] unfolding E_def by blast
  have nonneg_k: "0 \<le> E k"
    unfolding E_def by (rule constantRate_eta_nonneg [OF assms(1,2) k assms(5)])
  have nonneg_j: "0 \<le> E j"
    unfolding E_def by (rule constantRate_eta_nonneg [OF assms(1,2,3) jT])
  have mono: "E k \<le> E j"
    unfolding E_def by (rule constantRate_eta_mono [OF assms(1,2,3,4)])
  have shown: "nearest 0 (E k) \<le> nearest 0 (E j)"
    using mono by (rule nearest_mono)
  have digits: "eta bj = decimal (nearest 0 (E j)) \<and> eta bk = decimal (nearest 0 (E k))"
    if "E j < 10 ^ 21"
  proof -
    from that mono have "E k < 10 ^ 21" by simp
    then show ?thesis
      using that nonneg_j nonneg_k bj(2) bk(2) by (simp add: fixedText_0_small)
  qed
  have "\<exists>bj bk tj tk.
              run_simple b (constantRate d s (start b) j) = Inr bj
            \<and> run_simple b (constantRate d s (start b) k) = Inr bk
            \<and> run_throttled t (constantRate d s (start t) j) = Inr tj
            \<and> run_throttled t (constantRate d s (start t) k) = Inr tk
            \<and> eta bj = fixedText 0 (Fin (E j)) \<and> eta bk = fixedText 0 (Fin (E k))
            \<and> eta tj = fixedText 0 (Fin (E j)) \<and> eta tk = fixedText 0 (Fin (E k))
            \<and> 0 \<le> E k \<and> E k \<le> E j \<and> nearest 0 (E k) \<le> nearest 0 (E j)
            \<and> (E j < 10 ^ 21 \<longrightarrow>
                 eta bj = decimal (nearest 0 (E j)) \<and> eta bk = decimal (nearest 0 (E k)))"
    using bj bk tj tk nonneg_k mono shown digits by blast
  then show ?thesis
    unfolding E_def Let_def .
qed

section \<open>Constant-rate input with rounded quotients\<close>

text \<open>
  With quotients rounded as doubles round them, the rate computed at a sample of a
  constant-rate input is the exact rate \<open>1000 * d / s\<close> up to a factor between
  \<open>(1 - u) / (1 + u)\<close> and \<open>(1 + u) / (1 - u)\<close>, where \<open>u = 2^-53\<close>; and while the total is
  at most \<open>2^32\<close> increments, one increment less to go outweighs that factor.
\<close>

lemma rounded_rate_bounds:
  fixes rd :: "rat \<Rightarrow> rat" and d s :: int and i :: nat
  assumes rd: "roundsLikeDouble rd"
    and d: "1 \<le> d" and s: "1 \<le> s" and i: "1 \<le> i"
    and vb: "int i * d < 2 ^ 53" and tb: "int i * s < 2 ^ 53"
  shows "1000 * of_int d / of_int s * ((1 - 1 / 2 ^ 53) / (1 + 1 / 2 ^ 53))
           \<le> rd (of_int (int i * d) / rd (of_int (int i * s) / 1000))"
    and "rd (of_int (int i * d) / rd (of_int (int i * s) / 1000))
           \<le> 1000 * of_int d / of_int s * ((1 + 1 / 2 ^ 53) / (1 - 1 / 2 ^ 53))"
proof -
  define u :: rat where "u = 1 / 2 ^ 53"
  have u: "0 < u" "u \<le> 1 / 2" by (simp_all add: u_def)
  have acc: "x * (1 - u) \<le> rd x \<and> rd x \<le> x * (1 + u)" if "1 / 2 ^ 64 \<le> x" "x \<le> 2 ^ 64" for x
    using rd that unfolding roundsLikeDouble_def u_def by blast
  define m :: rat where "m = of_int (int i * s) / 1000"
  define v :: rat where "v = of_int (int i * d)"
  define c :: rat where "c = 1000 * of_int d / of_int s"
  have i1: "1 \<le> int i" using i by simp
  have is1: "1 \<le> int i * s"
    using mult_mono [of 1 "int i" 1 s] i1 s by simp
  have id1: "1 \<le> int i * d"
    using mult_mono [of 1 "int i" 1 d] i1 d by simp
  have s_le: "s \<le> int i * s"
    using mult_right_mono [of 1 "int i" s] i1 s by simp
  have d_le: "d \<le> int i * d"
    using mult_right_mono [of 1 "int i" d] i1 d by simp
  have sr: "1 \<le> (of_int s :: rat)" "(of_int s :: rat) \<le> 2 ^ 53"
  proof -
    show "1 \<le> (of_int s :: rat)" using s by simp
    have "s \<le> 2 ^ 53" using s_le tb by simp
    then have "(of_int s :: rat) \<le> of_int (2 ^ 53)" by (simp only: of_int_le_iff)
    then show "(of_int s :: rat) \<le> 2 ^ 53" by simp
  qed
  have dr: "1 \<le> (of_int d :: rat)" "(of_int d :: rat) \<le> 2 ^ 53"
  proof -
    show "1 \<le> (of_int d :: rat)" using d by simp
    have "d \<le> 2 ^ 53" using d_le vb by simp
    then have "(of_int d :: rat) \<le> of_int (2 ^ 53)" by (simp only: of_int_le_iff)
    then show "(of_int d :: rat) \<le> 2 ^ 53" by simp
  qed
  have ms_r: "1 \<le> (of_int (int i * s) :: rat)" "(of_int (int i * s) :: rat) \<le> 2 ^ 53"
  proof -
    have "(of_int 1 :: rat) \<le> of_int (int i * s)" using is1 by (simp only: of_int_le_iff)
    then show "1 \<le> (of_int (int i * s) :: rat)" by simp
    have "int i * s \<le> 2 ^ 53" using tb by simp
    then have "(of_int (int i * s) :: rat) \<le> of_int (2 ^ 53)" by (simp only: of_int_le_iff)
    then show "(of_int (int i * s) :: rat) \<le> 2 ^ 53" by simp
  qed
  have v1: "1 \<le> v"
  proof -
    have "(of_int 1 :: rat) \<le> of_int (int i * d)" using id1 by (simp only: of_int_le_iff)
    then show ?thesis by (simp add: v_def)
  qed
  have m_lo: "1 / 1000 \<le> m"
    unfolding m_def using ms_r(1) by (intro divide_right_mono) simp_all
  have m_hi: "m \<le> 2 ^ 53 / 1000"
    unfolding m_def using ms_r(2) by (intro divide_right_mono) simp_all
  have m_pos: "0 < m" using m_lo by simp
  have m_range: "1 / 2 ^ 64 \<le> m" "m \<le> 2 ^ 64"
  proof -
    have "(1::rat) / 2 ^ 64 \<le> 1 / 1000" by simp
    then show "1 / 2 ^ 64 \<le> m" using m_lo by simp
    have "(2::rat) ^ 53 / 1000 \<le> 2 ^ 64" by simp
    then show "m \<le> 2 ^ 64" using m_hi by simp
  qed
  define e where "e = rd m"
  have e: "m * (1 - u) \<le> e" "e \<le> m * (1 + u)"
    using acc [OF m_range] by (simp_all add: e_def)
  have e_pos: "0 < e"
  proof -
    have "0 < m * (1 - u)" using m_pos u by simp
    then show ?thesis using e(1) by simp
  qed
  have vm: "v / m = c"
  proof -
    have "(of_nat i :: rat) \<noteq> 0" using i by simp
    moreover have "(of_int s :: rat) \<noteq> 0" using sr by simp
    ultimately show ?thesis by (simp add: v_def m_def c_def)
  qed
  have c_pos: "0 < c" using dr sr by (simp add: c_def)
  define q where "q = v / e"
  have q_hi: "q \<le> c / (1 - u)"
  proof -
    have "0 < m * (1 - u)" using m_pos u by simp
    then have "0 < e * (m * (1 - u))" using e_pos by simp
    moreover have "0 \<le> v" using v1 by simp
    ultimately have "v / e \<le> v / (m * (1 - u))"
      using e(1) by (intro divide_left_mono)
    also have "\<dots> = c / (1 - u)" using vm by (simp add: divide_divide_eq_left [symmetric])
    finally show ?thesis by (simp add: q_def)
  qed
  have q_lo: "c / (1 + u) \<le> q"
  proof -
    have "0 < m * (1 + u)" using m_pos u by simp
    then have "0 < m * (1 + u) * e" using e_pos by simp
    moreover have "0 \<le> v" using v1 by simp
    ultimately have "v / (m * (1 + u)) \<le> v / e"
      using e(2) by (intro divide_left_mono)
    moreover have "v / (m * (1 + u)) = c / (1 + u)"
      using vm by (simp add: divide_divide_eq_left [symmetric])
    ultimately show ?thesis by (simp add: q_def)
  qed
  have c_lo: "1000 / 2 ^ 53 \<le> c"
  proof -
    have "1000 * 1 / 2 ^ 53 \<le> 1000 * of_int d / (of_int s :: rat)"
      using dr(1) sr by (intro frac_le) simp_all
    then show ?thesis by (simp add: c_def)
  qed
  have c_hi: "c \<le> 1000 * 2 ^ 53"
  proof -
    have "1000 * of_int d / (of_int s :: rat) \<le> 1000 * 2 ^ 53 / 1"
      using dr sr by (intro frac_le) simp_all
    then show ?thesis by (simp add: c_def)
  qed
  have q_range: "1 / 2 ^ 64 \<le> q" "q \<le> 2 ^ 64"
  proof -
    have "1 + u \<le> 2" using u by simp
    then have "c / 2 \<le> c / (1 + u)"
      using c_pos u by (intro divide_left_mono) simp_all
    moreover have "(1::rat) / 2 ^ 64 \<le> (1000 / 2 ^ 53) / 2" by simp
    moreover have "(1000 / 2 ^ 53) / 2 \<le> c / 2" using c_lo by simp
    ultimately show "1 / 2 ^ 64 \<le> q" using q_lo by linarith
    have "1 / 2 \<le> 1 - u" using u by simp
    then have "c / (1 - u) \<le> c / (1 / 2)"
      using c_pos by (intro divide_left_mono) simp_all
    moreover have "c / (1 / 2) \<le> (1000 * 2 ^ 53) / (1 / 2)" using c_hi by simp
    moreover have "((1000::rat) * 2 ^ 53) / (1 / 2) \<le> 2 ^ 64" by simp
    ultimately show "q \<le> 2 ^ 64" using q_hi by linarith
  qed
  have r: "q * (1 - u) \<le> rd q" "rd q \<le> q * (1 + u)"
    using acc [OF q_range] by simp_all
  have lo: "c * ((1 - u) / (1 + u)) \<le> rd q"
  proof -
    have "c / (1 + u) * (1 - u) \<le> q * (1 - u)"
      using q_lo u by (intro mult_right_mono) simp_all
    then show ?thesis using r(1) by simp
  qed
  have hi: "rd q \<le> c * ((1 + u) / (1 - u))"
  proof -
    have "q * (1 + u) \<le> c / (1 - u) * (1 + u)"
      using q_hi u by (intro mult_right_mono) simp_all
    then show ?thesis using r(2) by simp
  qed
  show "1000 * of_int d / of_int s * ((1 - 1 / 2 ^ 53) / (1 + 1 / 2 ^ 53))
           \<le> rd (of_int (int i * d) / rd (of_int (int i * s) / 1000))"
    using lo unfolding c_def q_def v_def e_def m_def u_def .
  show "rd (of_int (int i * d) / rd (of_int (int i * s) / 1000))
           \<le> 1000 * of_int d / of_int s * ((1 + 1 / 2 ^ 53) / (1 - 1 / 2 ^ 53))"
    using hi unfolding c_def q_def v_def e_def m_def u_def .
qed


lemma order_survives_ints:
  fixes x y T d :: int
  assumes "0 \<le> y" and "y + d \<le> x" and "T \<le> 2 ^ 32 * d" and "1 \<le> d" and "x \<le> T"
  shows "(T - x) * (2 ^ 53 + 1) * (2 ^ 53 + 1) \<le> (T - y) * (2 ^ 53 - 1) * (2 ^ 53 - 1)"
proof -
  have "(T - x) * 81129638414606699710187514626049 \<le> (T - y - d) * 81129638414606699710187514626049"
    using assms(2) by simp
  moreover have "36028797018963968 * (T - y) \<le> 81129638414606699710187514626049 * d"
    using assms(1,3,4) by simp
  ultimately have "(T - x) * 81129638414606699710187514626049
      \<le> (T - y) * 81129638414606663681390495662081"
    by simp
  then show ?thesis by simp
qed

lemma etaRounded_nonincreasing:
  fixes rd :: "rat \<Rightarrow> rat" and d s T :: int and j k :: nat
  assumes rd: "roundsLikeDouble rd"
    and d: "1 \<le> d" and s: "1 \<le> s" and j: "1 \<le> j" and jk: "j \<le> k"
    and kT: "int k * d \<le> T" and Td: "T \<le> 2 ^ 32 * d" and T: "T < 2 ^ 53"
    and ks: "int k * s < 2 ^ 53"
  shows "etaRounded rd T (int k * d) (int k * s) \<le> etaRounded rd T (int j * d) (int j * s)"
proof (cases "j = k")
  case True
  then show ?thesis by simp
next
  case False
  with jk have lt: "j < k" by simp
  have mono: "rd x \<le> rd y" if "x \<le> y" for x y
    using rd that unfolding roundsLikeDouble_def by blast
  have k: "1 \<le> k" using j jk by simp
  have jd_kd: "int j * d + d \<le> int k * d"
  proof -
    have "int j + 1 \<le> int k" using lt by simp
    then have "(int j + 1) * d \<le> int k * d" using d by (intro mult_right_mono) simp_all
    then show ?thesis by (simp add: algebra_simps)
  qed
  have js_ks: "int j * s \<le> int k * s"
    using jk s by (intro mult_right_mono) simp_all
  have kd: "int k * d < 2 ^ 53" using kT T by simp
  have jd: "int j * d < 2 ^ 53" using jd_kd kd d by simp
  have js: "int j * s < 2 ^ 53" using js_ks ks by simp
  define c :: rat where "c = 1000 * of_int d / of_int s"
  define a :: rat where "a = (1 - 1 / 2 ^ 53) / (1 + 1 / 2 ^ 53)"
  define b :: rat where "b = (1 + 1 / 2 ^ 53) / (1 - 1 / 2 ^ 53)"
  define rk where "rk = rd (of_int (int k * d) / rd (of_int (int k * s) / 1000))"
  define rj where "rj = rd (of_int (int j * d) / rd (of_int (int j * s) / 1000))"
  define Ak :: rat where "Ak = of_int (T - int k * d)"
  define Aj :: rat where "Aj = of_int (T - int j * d)"
  have c_pos: "0 < c" using d s by (simp add: c_def)
  have a_pos: "0 < a" and b_pos: "0 < b" by (simp_all add: a_def b_def)
  have rk_lo: "c * a \<le> rk"
    using rounded_rate_bounds(1) [OF rd d s k kd ks] by (simp add: c_def a_def rk_def)
  have rj_lo: "c * a \<le> rj"
    using rounded_rate_bounds(1) [OF rd d s j jd js] by (simp add: c_def a_def rj_def)
  have rj_hi: "rj \<le> c * b"
    using rounded_rate_bounds(2) [OF rd d s j jd js] by (simp add: c_def b_def rj_def)
  have ca_pos: "0 < c * a" using c_pos a_pos by simp
  have cb_pos: "0 < c * b" using c_pos b_pos by simp
  have rk_pos: "0 < rk" using ca_pos rk_lo by simp
  have rj_pos: "0 < rj" using ca_pos rj_lo by simp
  have Ak0: "0 \<le> Ak"
  proof -
    have "0 \<le> T - int k * d" using kT by simp
    then show ?thesis unfolding Ak_def by (simp only: of_int_0_le_iff)
  qed
  have Aj0: "0 \<le> Aj"
  proof -
    have "0 \<le> T - int j * d" using jd_kd kT d by simp
    then show ?thesis unfolding Aj_def by (simp only: of_int_0_le_iff)
  qed
  have step1: "Ak / rk \<le> Ak / (c * a)"
  proof -
    have "0 < rk * (c * a)" using rk_pos ca_pos by simp
    then show ?thesis using rk_lo Ak0 by (intro divide_left_mono)
  qed
  have step3: "Aj / (c * b) \<le> Aj / rj"
  proof -
    have "0 < c * b * rj" using rj_pos cb_pos by simp
    then show ?thesis using rj_hi Aj0 by (intro divide_left_mono)
  qed
  have ints: "(T - int k * d) * (2 ^ 53 + 1) * (2 ^ 53 + 1)
            \<le> (T - int j * d) * (2 ^ 53 - 1) * (2 ^ 53 - 1)"
  proof -
    have "0 \<le> int j * d" using d by simp
    then show ?thesis using jd_kd Td d kT by (rule order_survives_ints)
  qed
  have key: "Ak * b \<le> Aj * a"
  proof -
    have "(of_int ((T - int k * d) * (2 ^ 53 + 1) * (2 ^ 53 + 1)) :: rat)
        \<le> of_int ((T - int j * d) * (2 ^ 53 - 1) * (2 ^ 53 - 1))"
      using ints by (simp only: of_int_le_iff)
    then have "Ak * ((2 ^ 53 + 1) * (2 ^ 53 + 1)) \<le> Aj * ((2 ^ 53 - 1) * (2 ^ 53 - 1))"
      by (simp add: Ak_def Aj_def)
    then show ?thesis
      by (simp add: a_def b_def field_simps)
  qed
  have step2: "Ak / (c * a) \<le> Aj / (c * b)"
  proof -
    have "Ak * b / (c * a * b) \<le> Aj * a / (c * a * b)"
      using key c_pos a_pos b_pos by (intro divide_right_mono) simp_all
    moreover have "Ak * b / (c * a * b) = Ak / (c * a)" using b_pos by simp
    moreover have "Aj * a / (c * a * b) = Aj / (c * b)" using a_pos by simp
    ultimately show ?thesis by simp
  qed
  have "Ak / rk \<le> Aj / rj" using step1 step2 step3 by linarith
  then have "rd (Ak / rk) \<le> rd (Aj / rj)" by (rule mono)
  then show ?thesis
    unfolding etaRounded_def Ak_def Aj_def rk_def rj_def .
qed

lemma roundsLikeDouble_id: "roundsLikeDouble (\<lambda>x. x)"
  by (simp add: roundsLikeDouble_def)

text \<open>Without rounding, \<open>etaRounded\<close> is the estimate of the model.\<close>

lemma etaRounded_exact:
  assumes "0 < v" and "st < now"
  shows "etaValue (Fin (of_int tot)) (Fin (of_int v)) (elapsedTime now st) =
           Fin (etaRounded (\<lambda>x. x) tot v (now - st))"
  using assms by (simp add: etaValue_def elapsedTime_def etaRounded_def)


section \<open>The claims\<close>

subsection \<open>C1: clamping of the value\<close>

text \<open>
  Claim C1 says that \<^verbatim>\<open>updateProgress\<close> clamps the value to \<open>[0, total]\<close> before use.
  Neither variant does: on a bar of total 100 created at time 0, the value 200 reported
  at 10 s is stored as 200, and the estimate is computed from it, \<open>(100 - 200) / (200 / 10)\<close>,
  shown as \<open>-5\<close>; the clamped value 100 would give \<open>0\<close>. Clamping is what the callers do,
  with \<^verbatim>\<open>Math.min\<close>.
\<close>

theorem update_clamp_counterexample:
  "updateProgress_simple
     \<lparr>total = Fin 100, bvalue = Fin 0, speed = ''N/A'', eta = ''N/A'', start = 0\<rparr>
     (Fin 200) 10000 =
   Inr \<lparr>total = Fin 100, bvalue = Fin 200, speed = ''20.00 MB/s'', eta = ''-5'', start = 0\<rparr>
   \<and> updateProgress_throttled
     \<lparr>total = Fin 100, bvalue = Fin 0, speed = ''N/A'', eta = ''N/A'', start = 0,
      lastUpdate = 0, lastValue = Fin 0\<rparr>
     (Fin 200) 10000 =
   Inr \<lparr>total = Fin 100, bvalue = Fin 200, speed = ''20.00'', eta = ''-5'', start = 0,
      lastUpdate = 10000, lastValue = Fin 200\<rparr>
   \<and> Math_min (Fin 200) (Fin 100) = Fin 100
   \<and> etaText (Fin 100) (Fin 100) (elapsedTime 10000 0) = Inr ''0''"
  by code_simp

text \<open>
  Claim C1, amended: for every tracker, every numeric value and every time, a call of
  \<^verbatim>\<open>updateProgress\<close> (either variant) does not throw, stores the value as it was given
  (also one above the total) as the tracker's current value, leaves the total as it was,
  and computes the estimate from the value as given.
\<close>

theorem update_stores_value_unclamped:
  "(\<exists>b'. updateProgress_simple b v now = Inr b' \<and> bvalue b' = v \<and> total b' = total b
       \<and> Inr (eta b') = etaText (total b) v (elapsedTime now (start b)))
   \<and> (\<exists>t'. updateProgress_throttled t v now = Inr t' \<and> bvalue t' = v \<and> total t' = total t
       \<and> Inr (eta t') = etaText (total t) v (elapsedTime now (start t)))"
  by (simp add: updateProgress_simple_Inr updateProgress_throttled_Inr etaText_Inr js_gt_elapsed)

subsection \<open>C2: throttling of the rate\<close>

text \<open>
  Claim C2 says that between two calls less than 100 ms apart the reported rate is the
  same, that the last sample is overwritten only after 100 ms, and that two calls at
  least 100 ms apart with different values change the rate. On the throttled variant,
  with a bar of total 100 created at time 0: the calls (10 at 100 ms) and (20 at 200 ms)
  are 100 ms apart with different values and both report \<open>100.00\<close>, the rate of a
  constant-rate input; the call (25 at 250 ms), 50 ms later, reports \<open>N/A\<close>, not the
  rate of the call before it.
\<close>

theorem throttle_counterexample:
  "updateProgress_throttled
     \<lparr>total = Fin 100, bvalue = Fin 0, speed = ''N/A'', eta = ''N/A'', start = 0,
      lastUpdate = 0, lastValue = Fin 0\<rparr>
     (Fin 10) 100 =
   Inr \<lparr>total = Fin 100, bvalue = Fin 10, speed = ''100.00'', eta = ''1'', start = 0,
      lastUpdate = 100, lastValue = Fin 10\<rparr>
   \<and> updateProgress_throttled
     \<lparr>total = Fin 100, bvalue = Fin 10, speed = ''100.00'', eta = ''1'', start = 0,
      lastUpdate = 100, lastValue = Fin 10\<rparr>
     (Fin 20) 200 =
   Inr \<lparr>total = Fin 100, bvalue = Fin 20, speed = ''100.00'', eta = ''1'', start = 0,
      lastUpdate = 200, lastValue = Fin 20\<rparr>
   \<and> updateProgress_throttled
     \<lparr>total = Fin 100, bvalue = Fin 20, speed = ''100.00'', eta = ''1'', start = 0,
      lastUpdate = 200, lastValue = Fin 20\<rparr>
     (Fin 25) 250 =
   Inr \<lparr>total = Fin 100, bvalue = Fin 25, speed = ''N/A'', eta = ''1'', start = 0,
      lastUpdate = 200, lastValue = Fin 20\<rparr>"
  by code_simp

text \<open>
  Claim C2, amended: a call of the throttled \<^verbatim>\<open>updateProgress\<close> overwrites the stored
  pair \<^verbatim>\<open>(lastUpdate, lastValue)\<close>, with the time and the value of the call, exactly when
  at least 100 ms have passed since \<^verbatim>\<open>lastUpdate\<close>, and leaves it as it was otherwise;
  when it overwrites the pair, the rate it reports is the difference of the value to
  \<^verbatim>\<open>lastValue\<close> over the seconds since \<^verbatim>\<open>lastUpdate\<close>, with two decimals (which may be
  the text reported before).
\<close>

theorem throttle_sample_rule:
  "\<exists>t'. updateProgress_throttled t v now = Inr t'
     \<and> (if 100 \<le> now - lastUpdate t
         then lastUpdate t' = now \<and> lastValue t' = v
            \<and> speed t' = fixedText 2 (js_div (js_sub v (lastValue t))
                             (Fin (of_int (now - lastUpdate t) / 1000)))
         else lastUpdate t' = lastUpdate t \<and> lastValue t' = lastValue t)"
  by (simp add: updateProgress_throttled_Inr)

subsection \<open>C3: placeholders and failure\<close>

text \<open>
  Claim C3 says that a call with zero elapsed time or with the value zero reports both
  rate and estimate as a placeholder. The code tests the elapsed time only: with the
  value 0 one second after creation, on a bar of total 100, the simple variant reports
  the computed rate \<open>0.00 MB/s\<close> and the estimate \<open>Infinity\<close> (100 divided by a rate
  of zero), the throttled variant \<open>0.00\<close> and \<open>Infinity\<close>.
\<close>

theorem zero_value_counterexample:
  "updateProgress_simple
     \<lparr>total = Fin 100, bvalue = Fin 0, speed = ''N/A'', eta = ''N/A'', start = 0\<rparr>
     (Fin 0) 1000 =
   Inr \<lparr>total = Fin 100, bvalue = Fin 0, speed = ''0.00 MB/s'', eta = ''Infinity'', start = 0\<rparr>
   \<and> updateProgress_throttled
     \<lparr>total = Fin 100, bvalue = Fin 0, speed = ''N/A'', eta = ''N/A'', start = 0,
      lastUpdate = 0, lastValue = Fin 0\<rparr>
     (Fin 0) 1000 =
   Inr \<lparr>total = Fin 100, bvalue = Fin 0, speed = ''0.00'', eta = ''Infinity'', start = 0,
      lastUpdate = 1000, lastValue = Fin 0\<rparr>"
  by code_simp

text \<open>
  Claim C3, amended: a call of \<^verbatim>\<open>updateProgress\<close> never throws, whatever the tracker, the
  numeric value and the time. When no time has passed since the creation of the tracker
  (the clock is at, or before, \<^verbatim>\<open>bar.start\<close>), the estimate is \<open>N/A\<close> in both variants,
  and so is the rate: in the simple variant always, in the throttled one when the last
  sample is not older than the creation. The value zero alone gives no placeholder:
  after a positive elapsed time the simple variant reports the computed rate
  \<open>0.00 MB/s\<close> for it.
\<close>

theorem update_never_fails_placeholder_at_zero_elapsed:
  "(\<exists>b'. updateProgress_simple b v now = Inr b'
       \<and> (now \<le> start b \<longrightarrow> speed b' = ''N/A'' \<and> eta b' = ''N/A'')
       \<and> (start b < now \<and> v = Fin 0 \<longrightarrow> speed b' = ''0.00 MB/s''))
   \<and> (\<exists>t'. updateProgress_throttled t v now = Inr t'
       \<and> (now \<le> start t \<longrightarrow> eta t' = ''N/A'')
       \<and> (now \<le> start t \<and> start t \<le> lastUpdate t \<longrightarrow> speed t' = ''N/A''))"
  by (simp add: updateProgress_simple_Inr updateProgress_throttled_Inr elapsedTime_def
      fixedText_2_zero)

theorem update_never_fails_placeholder_witness:
  "(\<exists>b'. updateProgress_simple (createProgressBar_simple (Fin 100) 5) (Fin 0) 5 = Inr b'
       \<and> speed b' = ''N/A'' \<and> eta b' = ''N/A'')
   \<and> (\<exists>b'. updateProgress_simple (createProgressBar_simple (Fin 100) 5) (Fin 0) 1005 = Inr b'
       \<and> speed b' = ''0.00 MB/s'')
   \<and> (\<exists>t'. updateProgress_throttled (createProgressBar_throttled (Fin 100) 5 6) (Fin 0) 5 = Inr t'
       \<and> eta t' = ''N/A'' \<and> speed t' = ''N/A'')"
  using update_never_fails_placeholder_at_zero_elapsed
          [of "createProgressBar_simple (Fin 100) 5" "Fin 0" 5
              "createProgressBar_throttled (Fin 100) 5 6"]
        update_never_fails_placeholder_at_zero_elapsed
          [of "createProgressBar_simple (Fin 100) 5" "Fin 0" 1005
              "createProgressBar_throttled (Fin 100) 5 6"]
  by (simp add: createProgressBar_simple_def createProgressBar_throttled_def)

subsection \<open>C4: the estimate comes from the average rate\<close>

text \<open>
  Claim C4: for every call of \<^verbatim>\<open>updateProgress\<close> with a value above 0 and a positive
  elapsed time since creation, the estimate displayed is, formatted without decimals,
  \<open>(total - value)\<close> over the average rate \<open>value / elapsed seconds since creation\<close>:
  the specification's formula, in which the throttled sample (\<^verbatim>\<open>lastUpdate\<close>,
  \<^verbatim>\<open>lastValue\<close>) has no part. For a finite total and value it is the quotient of the
  rationals.
\<close>

theorem eta_from_average_rate:
  assumes "js_gt v (Fin 0)" and "start b < now" and "start t < now"
  shows "\<exists>b' t'. updateProgress_simple b v now = Inr b' \<and> updateProgress_throttled t v now = Inr t'
       \<and> eta b' = fixedText 0 (spec_eta (total b) v (Fin (of_int (now - start b) / 1000)))
       \<and> eta t' = fixedText 0 (spec_eta (total t) v (Fin (of_int (now - start t) / 1000)))
       \<and> (\<forall>T x. total b = Fin T \<and> v = Fin x \<longrightarrow>
             eta b' = fixedText 0 (Fin ((T - x) / (x / (of_int (now - start b) / 1000)))))
       \<and> (\<forall>T x. total t = Fin T \<and> v = Fin x \<longrightarrow>
             eta t' = fixedText 0 (Fin ((T - x) / (x / (of_int (now - start t) / 1000)))))"
  using assms
  by (auto simp add: updateProgress_simple_Inr updateProgress_throttled_Inr spec_eta_def
      spec_averageRate_def etaValue_def elapsedTime_def js_gt_def)

theorem eta_from_average_rate_witness:
  "js_gt (Fin 50) (Fin 0) \<and> (0::int) < 10000
   \<and> (\<exists>b' t'. updateProgress_simple (createProgressBar_simple (Fin 100) 0) (Fin 50) 10000 = Inr b'
        \<and> updateProgress_throttled (createProgressBar_throttled (Fin 100) 0 0) (Fin 50) 10000 = Inr t'
        \<and> eta b' = ''10'' \<and> eta t' = ''10'')"
proof -
  have h: "js_gt (Fin 50) (Fin 0)" by (simp add: js_gt_def)
  have sb: "start (createProgressBar_simple (Fin 100) 0) < 10000"
    by (simp add: createProgressBar_simple_def)
  have st: "start (createProgressBar_throttled (Fin 100) 0 0) < 10000"
    by (simp add: createProgressBar_throttled_def)
  have tb: "total (createProgressBar_simple (Fin 100) 0) = Fin 100"
           "start (createProgressBar_simple (Fin 100) 0) = 0"
    by (simp_all add: createProgressBar_simple_def)
  have tt: "total (createProgressBar_throttled (Fin 100) 0 0) = Fin 100"
           "start (createProgressBar_throttled (Fin 100) 0 0) = 0"
    by (simp_all add: createProgressBar_throttled_def)
  from eta_from_average_rate [OF h sb st] obtain b' t' where
    r: "updateProgress_simple (createProgressBar_simple (Fin 100) 0) (Fin 50) 10000 = Inr b'"
       "updateProgress_throttled (createProgressBar_throttled (Fin 100) 0 0) (Fin 50) 10000 = Inr t'"
    and eb: "\<forall>T x. total (createProgressBar_simple (Fin 100) 0) = Fin T \<and> Fin 50 = Fin x \<longrightarrow>
             eta b' = fixedText 0 (Fin ((T - x) / (x / (of_int (10000 - start (createProgressBar_simple (Fin 100) 0)) / 1000))))"
    and et: "\<forall>T x. total (createProgressBar_throttled (Fin 100) 0 0) = Fin T \<and> Fin 50 = Fin x \<longrightarrow>
             eta t' = fixedText 0 (Fin ((T - x) / (x / (of_int (10000 - start (createProgressBar_throttled (Fin 100) 0 0)) / 1000))))"
    by blast
  from eb tb have "eta b' = ''10''" using eta_example by auto
  moreover from et tt have "eta t' = ''10''" using eta_example by auto
  ultimately show ?thesis using h r by auto
qed

subsection \<open>C5: completion\<close>

text \<open>
  Claim C5 says that \<^verbatim>\<open>completeProgress\<close> sets the current value to the total and shows
  the rate as a "done" marker and the estimate as zero. The throttled variant does;
  the simple variant calls
  \<^verbatim>\<open>bar.update(bar.total)\<close> without a payload and so leaves rate and estimate as the last
  update set them: after (50 at 10 s) on a bar of total 100 the completed bar still
  shows \<open>5.00 MB/s\<close> and an estimate of \<open>10\<close>, and a bar completed right after its
  creation shows \<open>N/A\<close> for both.
\<close>

theorem complete_simple_keeps_rate_and_eta:
  "run_simple (createProgressBar_simple (Fin 100) 0) [Update (Fin 50) 10000, Complete] =
     Inr \<lparr>total = Fin 100, bvalue = Fin 100, speed = ''5.00 MB/s'', eta = ''10'', start = 0\<rparr>
   \<and> completeProgress_simple (createProgressBar_simple (Fin 100) 0) =
     \<lparr>total = Fin 100, bvalue = Fin 100, speed = ''N/A'', eta = ''N/A'', start = 0\<rparr>"
  by code_simp

subsection \<open>C6: the estimate under constant-rate input\<close>

text \<open>
  Claim C6 says that for every input of fixed increments at fixed time steps, with values
  up to the total, the estimate never increases from one sample to the next. It does when
  the input does not go back to the creation of the tracker at that rate: on a bar of
  total 100 created at time 0, the samples 50 at 10 s and 60 at 20 s (increment 10, step
  10 s) give the estimates \<open>(100 - 50) / (50 / 10) = 10\<close> and
  \<open>(100 - 60) / (60 / 20) = 13.33\<close>, shown as \<open>10\<close> and then \<open>13\<close>, in both variants:
  the average rate since creation falls from 5 to 3 per second.
\<close>

theorem fixed_steps_eta_rises:
  "fixedSteps 50 10 10000 10000 2 = [Update (Fin 50) 10000, Update (Fin 60) 20000]
   \<and> run_simple (createProgressBar_simple (Fin 100) 0) (fixedSteps 50 10 10000 10000 1) =
       Inr \<lparr>total = Fin 100, bvalue = Fin 50, speed = ''5.00 MB/s'', eta = ''10'', start = 0\<rparr>
   \<and> run_simple (createProgressBar_simple (Fin 100) 0) (fixedSteps 50 10 10000 10000 2) =
       Inr \<lparr>total = Fin 100, bvalue = Fin 60, speed = ''3.00 MB/s'', eta = ''13'', start = 0\<rparr>
   \<and> run_throttled (createProgressBar_throttled (Fin 100) 0 0) (fixedSteps 50 10 10000 10000 1) =
       Inr \<lparr>total = Fin 100, bvalue = Fin 50, speed = ''5.00'', eta = ''10'', start = 0,
          lastUpdate = 10000, lastValue = Fin 50\<rparr>
   \<and> run_throttled (createProgressBar_throttled (Fin 100) 0 0) (fixedSteps 50 10 10000 10000 2) =
       Inr \<lparr>total = Fin 100, bvalue = Fin 60, speed = ''1.00'', eta = ''13'', start = 0,
          lastUpdate = 20000, lastValue = Fin 60\<rparr>"
  by code_simp

text \<open>
  Claim C6, amended: for an input at a constant rate since the creation of the tracker
  (the value was 0 at creation, sample \<open>i\<close> reports \<open>i * d\<close> at \<open>i * s\<close> milliseconds after
  it), with an integer increment \<open>d \<ge> 1\<close>, a step \<open>s \<ge> 1\<close>, values up to an integer
  total that is at most \<open>2^32\<close> increments and below \<open>2^53\<close>, and times less than \<open>2^53\<close>
  milliseconds after creation, the estimate computed by successive \<^verbatim>\<open>updateProgress\<close>
  calls never increases. In the model, for samples \<open>j \<le> k\<close>: the calls return (both
  variants), the estimate shown after sample \<open>i\<close> is the number
  \<open>E i = (total - i * d) / (i * d / seconds)\<close> formatted without decimals, \<open>E k\<close> is not
  negative and at most \<open>E j\<close>, and so is the integer displayed. And with the quotients
  rounded as doubles round them (by any rounding that keeps the order and is accurate to
  \<open>2^-53\<close>), the estimate of sample \<open>k\<close> is still at most that of sample \<open>j\<close>, and so is
  the integer displayed: the bounds are those within which rounding cannot reorder two
  samples.
\<close>

theorem constant_rate_eta_nonincreasing:
  fixes d T :: nat
  assumes "1 \<le> d" and "1 \<le> s" and "1 \<le> j" and "j \<le> k" and "k * d \<le> T"
    and "T \<le> 2 ^ 32 * d" and "T < 2 ^ 53" and "int k * s < 2 ^ 53"
    and "total b = Fin (of_nat T)" and "total t = Fin (of_nat T)"
  shows "(let E = (\<lambda>i. ((of_nat T :: rat) - of_nat i * of_nat d)
                      / (of_nat i * of_nat d / (of_int (int i * s) / 1000)))
         in \<exists>bj bk tj tk.
              run_simple b (constantRate (of_nat d) s (start b) j) = Inr bj
            \<and> run_simple b (constantRate (of_nat d) s (start b) k) = Inr bk
            \<and> run_throttled t (constantRate (of_nat d) s (start t) j) = Inr tj
            \<and> run_throttled t (constantRate (of_nat d) s (start t) k) = Inr tk
            \<and> eta bj = fixedText 0 (Fin (E j)) \<and> eta bk = fixedText 0 (Fin (E k))
            \<and> eta tj = fixedText 0 (Fin (E j)) \<and> eta tk = fixedText 0 (Fin (E k))
            \<and> 0 \<le> E k \<and> E k \<le> E j \<and> nearest 0 (E k) \<le> nearest 0 (E j)
            \<and> (E j < 10 ^ 21 \<longrightarrow>
                 eta bj = decimal (nearest 0 (E j)) \<and> eta bk = decimal (nearest 0 (E k))))
       \<and> (\<forall>rd. roundsLikeDouble rd \<longrightarrow>
              etaRounded rd (int T) (int k * int d) (int k * s)
                \<le> etaRounded rd (int T) (int j * int d) (int j * s)
            \<and> nearest 0 (etaRounded rd (int T) (int k * int d) (int k * s))
                \<le> nearest 0 (etaRounded rd (int T) (int j * int d) (int j * s)))"
proof (intro conjI allI impI)
  have d: "0 < (of_nat d :: rat)" using assms(1) by simp
  have s: "0 < s" using assms(2) by simp
  have "(of_nat (k * d) :: rat) \<le> of_nat T" using assms(5) by (simp only: of_nat_le_iff)
  then have kT: "of_nat k * (of_nat d :: rat) \<le> of_nat T" by simp
  show "let E = (\<lambda>i. ((of_nat T :: rat) - of_nat i * of_nat d)
                      / (of_nat i * of_nat d / (of_int (int i * s) / 1000)))
         in \<exists>bj bk tj tk.
              run_simple b (constantRate (of_nat d) s (start b) j) = Inr bj
            \<and> run_simple b (constantRate (of_nat d) s (start b) k) = Inr bk
            \<and> run_throttled t (constantRate (of_nat d) s (start t) j) = Inr tj
            \<and> run_throttled t (constantRate (of_nat d) s (start t) k) = Inr tk
            \<and> eta bj = fixedText 0 (Fin (E j)) \<and> eta bk = fixedText 0 (Fin (E k))
            \<and> eta tj = fixedText 0 (Fin (E j)) \<and> eta tk = fixedText 0 (Fin (E k))
            \<and> 0 \<le> E k \<and> E k \<le> E j \<and> nearest 0 (E k) \<le> nearest 0 (E j)
            \<and> (E j < 10 ^ 21 \<longrightarrow>
                 eta bj = decimal (nearest 0 (E j)) \<and> eta bk = decimal (nearest 0 (E k)))"
    by (rule eta_nonincreasing_exact [OF d s assms(3,4) kT assms(9,10)])
next
  fix rd :: "rat \<Rightarrow> rat"
  assume rd: "roundsLikeDouble rd"
  have d: "1 \<le> int d" using assms(1) by simp
  have "int (k * d) \<le> int T" using assms(5) by (simp only: of_nat_le_iff)
  then have kT: "int k * int d \<le> int T" by simp
  have "int T \<le> int (2 ^ 32 * d)" using assms(6) by (simp only: of_nat_le_iff)
  then have Td: "int T \<le> 2 ^ 32 * int d" by simp
  have "int T < int (2 ^ 53)" using assms(7) by (simp only: of_nat_less_iff)
  then have T: "int T < 2 ^ 53" by simp
  show le: "etaRounded rd (int T) (int k * int d) (int k * s)
           \<le> etaRounded rd (int T) (int j * int d) (int j * s)"
    by (rule etaRounded_nonincreasing [OF rd d assms(2,3,4) kT Td T assms(8)])
  show "nearest 0 (etaRounded rd (int T) (int k * int d) (int k * s))
          \<le> nearest 0 (etaRounded rd (int T) (int j * int d) (int j * s))"
    using le by (rule nearest_mono)
qed

theorem constant_rate_eta_nonincreasing_witness:
  "(1::nat) \<le> 10 \<and> (1::int) \<le> 100 \<and> (1::nat) \<le> 1 \<and> (1::nat) \<le> 9 \<and> (9::nat) * 10 \<le> 100
   \<and> (100::nat) \<le> 2 ^ 32 * 10 \<and> (100::nat) < 2 ^ 53 \<and> int 9 * 100 < 2 ^ 53
   \<and> total (createProgressBar_simple (Fin 100) 0) = Fin (of_nat 100)
   \<and> total (createProgressBar_throttled (Fin 100) 0 0) = Fin (of_nat 100)
   \<and> (let E = (\<lambda>i. ((of_nat 100 :: rat) - of_nat i * of_nat 10)
                      / (of_nat i * of_nat 10 / (of_int (int i * 100) / 1000)))
         in \<exists>bj bk tj tk.
              run_simple (createProgressBar_simple (Fin 100) 0)
                (constantRate (of_nat 10) 100 (start (createProgressBar_simple (Fin 100) 0)) 1) = Inr bj
            \<and> run_simple (createProgressBar_simple (Fin 100) 0)
                (constantRate (of_nat 10) 100 (start (createProgressBar_simple (Fin 100) 0)) 9) = Inr bk
            \<and> run_throttled (createProgressBar_throttled (Fin 100) 0 0)
                (constantRate (of_nat 10) 100 (start (createProgressBar_throttled (Fin 100) 0 0)) 1) = Inr tj
            \<and> run_throttled (createProgressBar_throttled (Fin 100) 0 0)
                (constantRate (of_nat 10) 100 (start (createProgressBar_throttled (Fin 100) 0 0)) 9) = Inr tk
            \<and> eta bj = fixedText 0 (Fin (E 1)) \<and> eta bk = fixedText 0 (Fin (E 9))
            \<and> eta tj = fixedText 0 (Fin (E 1)) \<and> eta tk = fixedText 0 (Fin (E 9))
            \<and> 0 \<le> E 9 \<and> E 9 \<le> E 1 \<and> nearest 0 (E 9) \<le> nearest 0 (E 1)
            \<and> (E 1 < 10 ^ 21 \<longrightarrow>
                 eta bj = decimal (nearest 0 (E 1)) \<and> eta bk = decimal (nearest 0 (E 9))))
   \<and> roundsLikeDouble (\<lambda>x. x)
   \<and> etaRounded (\<lambda>x. x) (int 100) (int 9 * int 10) (int 9 * 100)
        \<le> etaRounded (\<lambda>x. x) (int 100) (int 1 * int 10) (int 1 * 100)
   \<and> nearest 0 (etaRounded (\<lambda>x. x) (int 100) (int 9 * int 10) (int 9 * 100))
        \<le> nearest 0 (etaRounded (\<lambda>x. x) (int 100) (int 1 * int 10) (int 1 * 100))"
proof -
  have h1: "(1::nat) \<le> 10" and h2: "(1::int) \<le> 100" and h3: "(1::nat) \<le> 1" and h4: "(1::nat) \<le> 9"
    and h5: "(9::nat) * 10 \<le> 100" and h6: "(100::nat) \<le> 2 ^ 32 * 10" and h7: "(100::nat) < 2 ^ 53"
    and h8: "int 9 * 100 < 2 ^ 53"
    by simp_all
  have h9: "total (createProgressBar_simple (Fin 100) 0) = Fin (of_nat 100)"
    by (simp add: createProgressBar_simple_def)
  have h10: "total (createProgressBar_throttled (Fin 100) 0 0) = Fin (of_nat 100)"
    by (simp add: createProgressBar_throttled_def)
  note w = constant_rate_eta_nonincreasing [OF h1 h2 h3 h4 h5 h6 h7 h8 h9 h10]
  note w1 = w [THEN conjunct1]
  note w2 = w [THEN conjunct2, rule_format, OF roundsLikeDouble_id]
  note w3 = w2 [THEN conjunct1] and w4 = w2 [THEN conjunct2]
  show ?thesis
    using h1 h2 h3 h4 h5 h6 h7 h8 h9 h10 w1 roundsLikeDouble_id w3 w4
    by (intro conjI) assumption+
qed

subsection \<open>C7: total and creation time never change\<close>

text \<open>
  Claim C7: whatever sequence of \<^verbatim>\<open>updateProgress\<close> and \<^verbatim>\<open>completeProgress\<close> calls
  follows the creation of a tracker, every call returns, and the tracker's total and its
  creation time \<^verbatim>\<open>bar.start\<close> are afterwards what they were (both variants).
\<close>

theorem total_and_start_never_change:
  "(\<exists>b'. run_simple b cs = Inr b' \<and> total b' = total b \<and> start b' = start b)
   \<and> (\<exists>t'. run_throttled t cs = Inr t' \<and> total t' = total t \<and> start t' = start t)"
  using run_simple_Inr [of b cs] run_throttled_Inr [of t cs] by blast

subsection \<open>C8: the state after creation\<close>

text \<open>
  Claim C8: for every total above 0, a created tracker holds the given total, the time of
  its creation as \<^verbatim>\<open>bar.start\<close>, the current value 0, and \<open>N/A\<close> for rate and estimate
  (both variants; the throttled one reads the clock a second time for
  \<^verbatim>\<open>bar.lastUpdate\<close>).
\<close>

theorem create_initial_state:
  assumes "js_gt totalSize (Fin 0)"
  shows "createProgressBar_simple totalSize now =
           \<lparr>total = totalSize, bvalue = Fin 0, speed = ''N/A'', eta = ''N/A'', start = now\<rparr>
       \<and> total (createProgressBar_throttled totalSize now now') = totalSize
       \<and> start (createProgressBar_throttled totalSize now now') = now
       \<and> bvalue (createProgressBar_throttled totalSize now now') = Fin 0
       \<and> speed (createProgressBar_throttled totalSize now now') = ''N/A''
       \<and> eta (createProgressBar_throttled totalSize now now') = ''N/A''"
  by (simp add: createProgressBar_simple_def createProgressBar_throttled_def)

theorem create_initial_state_witness:
  "js_gt (Fin 100) (Fin 0)
   \<and> createProgressBar_simple (Fin 100) 5 =
           \<lparr>total = Fin 100, bvalue = Fin 0, speed = ''N/A'', eta = ''N/A'', start = 5\<rparr>
   \<and> total (createProgressBar_throttled (Fin 100) 5 6) = Fin 100
   \<and> start (createProgressBar_throttled (Fin 100) 5 6) = 5
   \<and> bvalue (createProgressBar_throttled (Fin 100) 5 6) = Fin 0
   \<and> speed (createProgressBar_throttled (Fin 100) 5 6) = ''N/A''
   \<and> eta (createProgressBar_throttled (Fin 100) 5 6) = ''N/A''"
proof -
  have h: "js_gt (Fin 100) (Fin 0)" by (simp add: js_gt_def)
  show ?thesis using h create_initial_state [OF h, of 5 6] by simp
qed

subsection \<open>C9: the two variants agree on the estimate\<close>

text \<open>
  Claim C9: on trackers with the same total and the same creation time, the simple and
  the throttled \<^verbatim>\<open>updateProgress\<close>, called with the same value at the same time, both
  return, and leave the same estimate text, the same current value, the same total and
  the same creation time: of what they display, only the rate can differ.
\<close>

theorem variants_same_eta:
  assumes "total b = total t" and "start b = start t"
  shows "\<exists>b' t'. updateProgress_simple b v now = Inr b' \<and> updateProgress_throttled t v now = Inr t'
           \<and> eta b' = eta t' \<and> bvalue b' = bvalue t' \<and> total b' = total t' \<and> start b' = start t'"
  using assms by (simp add: updateProgress_simple_Inr updateProgress_throttled_Inr)

theorem variants_same_eta_witness:
  "total (createProgressBar_simple (Fin 100) 0) = total (createProgressBar_throttled (Fin 100) 0 0)
   \<and> start (createProgressBar_simple (Fin 100) 0) = start (createProgressBar_throttled (Fin 100) 0 0)
   \<and> (\<exists>b' t'. updateProgress_simple (createProgressBar_simple (Fin 100) 0) (Fin 50) 10000 = Inr b'
         \<and> updateProgress_throttled (createProgressBar_throttled (Fin 100) 0 0) (Fin 50) 10000 = Inr t'
         \<and> eta b' = eta t' \<and> bvalue b' = bvalue t' \<and> total b' = total t' \<and> start b' = start t')"
proof -
  have h1: "total (createProgressBar_simple (Fin 100) 0) = total (createProgressBar_throttled (Fin 100) 0 0)"
    by (simp add: createProgressBar_simple_def createProgressBar_throttled_def)
  have h2: "start (createProgressBar_simple (Fin 100) 0) = start (createProgressBar_throttled (Fin 100) 0 0)"
    by (simp add: createProgressBar_simple_def createProgressBar_throttled_def)
  show ?thesis
    using h1 h2 variants_same_eta [OF h1 h2, of "Fin 50" 10000] by blast
qed

subsection \<open>C10: the callers never pass more than the total\<close>

text \<open>
  Claim C10: every value an in-repository caller passes to \<^verbatim>\<open>updateProgress\<close> is at most
  the total of the bar it created: the download drivers pass
  \<^verbatim>\<open>Math.min(downloadedSize, size)\<close> to a bar created with \<^verbatim>\<open>size\<close>, whatever the
  chunks, and the folder loop passes \<open>i + 1\<close> for \<open>i < n\<close> to a bar created with \<open>n\<close>.
\<close>

theorem callers_pass_at_most_total:
  "(\<forall>(v, now) \<in> set (download_calls (Fin sz) (Fin 0) chunks).
       js_le v (total (createProgressBar_simple (Fin sz) t0))
     \<and> js_le v (total (createProgressBar_throttled (Fin sz) t0 t1)))
   \<and> (\<forall>(v, now) \<in> set (createFolderStructure_calls n 0 fsOk clock).
       js_le v (total (createProgressBar_simple (Fin (of_nat n)) t0))
     \<and> js_le v (total (createProgressBar_throttled (Fin (of_nat n)) t0 t1)))"
proof -
  have "js_le v (Fin sz)" if "(v, now) \<in> set (download_calls (Fin sz) (Fin 0) chunks)" for v now
    using that by (rule download_calls_le)
  moreover have "js_le v (Fin (of_nat n))"
    if "(v, now) \<in> set (createFolderStructure_calls n 0 fsOk clock)" for v now
  proof -
    from createFolderStructure_calls_le [OF that]
    obtain m where "v = Fin (of_nat m)" "m \<le> n" by blast
    then show ?thesis by (simp add: js_le_def not_less)
  qed
  ultimately show ?thesis
    by (auto simp add: createProgressBar_simple_def createProgressBar_throttled_def)
qed

theorem callers_pass_at_most_total_witness:
  "download_calls (Fin 1) (Fin 0) [(524288, 100), (1048576, 200)] = [(Fin (1 / 2), 100), (Fin 1, 200)]
   \<and> js_le (Fin (1 / 2)) (total (createProgressBar_simple (Fin 1) 0))
   \<and> js_le (Fin 1) (total (createProgressBar_throttled (Fin 1) 0 0))
   \<and> createFolderStructure_calls 2 0 (\<lambda>i. True) (\<lambda>i. int i) = [(Fin 1, 0), (Fin 2, 1)]
   \<and> js_le (Fin 2) (total (createProgressBar_throttled (Fin (of_nat 2)) 0 0))"
proof -
  note w = callers_pass_at_most_total
          [of 1 "[(524288, 100), (1048576, 200)]" 0 0 2 "\<lambda>i. True" "\<lambda>i. int i",
           unfolded download_example folders_example]
  show ?thesis
    unfolding download_example folders_example
    using w by (simp add: createProgressBar_simple_def createProgressBar_throttled_def)
qed

end
